theory Spec2Isabelle
  imports Main "HOL-Library.AList" "HOL-Library.Code_Target_Numeral"
begin

section \<open>The generated tree-command parser\<close>

text \<open>
  \<^verbatim>\<open>scripts/generate_lark_parser.py\<close> writes a TypeScript module as the concatenation of a
  Python format string (lines 24 to 201 of the script), the grammar text and a plain string
  (lines 201 to 232). The functions of the format string are the program verified here:
  \<^verbatim>\<open>parseLarkTreeCommand\<close>, the five per-command functions and \<^verbatim>\<open>parseAttributes\<close>. In the
  format string a doubled brace stands for one brace. Neither string is raw, so each doubled
  backslash of the Python text is one backslash of the module: the attribute pattern of the
  module is
  \<^verbatim>\<open>/(\w+)=(?:"([^"]*)"|'([^']*)'|([a-zA-Z_][a-zA-Z0-9_-]*))/g\<close>
  and its first replacement is \<^verbatim>\<open>.replace(/\\"/g, '"')\<close>.

  The plain string holds \<^verbatim>\<open>validateLarkParserConsistency\<close>. Its braces are doubled like those
  of the format string, and in a plain string they stay doubled: the module has
  \<^verbatim>\<open>validateLarkParserConsistency(): {{ isConsistent: boolean; issues: string[] }} {{\<close>, which
  is not a function that can run. It is not modelled; the strings of its suite are.

  A JavaScript string is a sequence of UTF-16 code units. The model takes one \<^typ>\<open>char\<close>
  for one code unit and so covers the strings whose code units are below 256.
\<close>

subsection \<open>Characters\<close>

definition dq :: char where "dq = CHR 0x22"
definition sq :: char where "sq = CHR 0x27"
definition bs :: char where "bs = CHR 0x5C"

definition code :: "char \<Rightarrow> nat" where
  "code c = of_char c"

text \<open>The class \<^verbatim>\<open>\s\<close> and the characters removed by \<^verbatim>\<open>trim()\<close>: tab, line feed,
  vertical tab, form feed, carriage return, space and no-break space (the members below 256).\<close>

definition is_space :: "char \<Rightarrow> bool" where
  "is_space c = (code c \<in> {9, 10, 11, 12, 13, 32, 160})"

definition is_upper :: "char \<Rightarrow> bool" where
  "is_upper c = (65 \<le> code c \<and> code c \<le> 90)"

definition is_lower :: "char \<Rightarrow> bool" where
  "is_lower c = (97 \<le> code c \<and> code c \<le> 122)"

definition is_digit :: "char \<Rightarrow> bool" where
  "is_digit c = (48 \<le> code c \<and> code c \<le> 57)"

text \<open>\<^verbatim>\<open>\w\<close> without the unicode flag is \<^verbatim>\<open>[A-Za-z0-9_]\<close>.\<close>

definition is_word :: "char \<Rightarrow> bool" where
  "is_word c = (is_upper c \<or> is_lower c \<or> is_digit c \<or> c = CHR ''_'')"

text \<open>\<^verbatim>\<open>[a-zA-Z_]\<close> and \<^verbatim>\<open>[a-zA-Z0-9_-]\<close>, the first and the later characters of a bare value.\<close>

definition is_bare_start :: "char \<Rightarrow> bool" where
  "is_bare_start c = (is_lower c \<or> is_upper c \<or> c = CHR ''_'')"

definition is_bare_char :: "char \<Rightarrow> bool" where
  "is_bare_char c = (is_lower c \<or> is_upper c \<or> is_digit c \<or> c = CHR ''_'' \<or> c = CHR ''-'')"

text \<open>\<^verbatim>\<open>toUpperCase\<close> and \<^verbatim>\<open>toLowerCase\<close> are only applied to text matched by the keyword
  alternatives and by \<^verbatim>\<open>\w+\<close>, where they change the ASCII letters and nothing else. Under the
  flag \<^verbatim>\<open>i\<close> (without \<^verbatim>\<open>u\<close>) a code unit matches an ASCII letter of a pattern exactly when
  its \<open>to_upper\<close> is the upper-case letter.\<close>

definition to_upper :: "char \<Rightarrow> char" where
  "to_upper c = (if is_lower c then char_of (code c - 32) else c)"

definition to_lower :: "char \<Rightarrow> char" where
  "to_lower c = (if is_upper c then char_of (code c + 32) else c)"

definition trim :: "string \<Rightarrow> string" where
  "trim s = rev (dropWhile is_space (rev (dropWhile is_space s)))"

definition startsWith :: "string \<Rightarrow> string \<Rightarrow> bool" where
  "startsWith s p = (take (length p) s = p)"

subsection \<open>Values and objects\<close>

text \<open>The values stored in the objects of the module are strings and \<^verbatim>\<open>undefined\<close>
  (\<open>None\<close>). A value is truthy when it is a non-empty string; \<^verbatim>\<open>a || b\<close> is \<open>a\<close> when
  \<open>a\<close> is truthy and \<open>b\<close> otherwise.\<close>

type_synonym jsval = "string option"

fun truthy :: "jsval \<Rightarrow> bool" where
  "truthy None = False"
| "truthy (Some v) = (v \<noteq> [])"

definition js_or :: "jsval \<Rightarrow> jsval \<Rightarrow> jsval" where
  "js_or a b = (if truthy a then a else b)"

text \<open>An object is the list of its own properties in the order of their creation.\<close>

type_synonym obj = "(string \<times> jsval) list"

text \<open>Reading a property gives \<^verbatim>\<open>undefined\<close> when the object has no such property (the
  module reads \<^verbatim>\<open>id\<close>, \<^verbatim>\<open>parent\<close> and \<^verbatim>\<open>label\<close>, which no prototype supplies).\<close>

definition get_prop :: "obj \<Rightarrow> string \<Rightarrow> jsval" where
  "get_prop ob k = (case map_of ob k of None \<Rightarrow> None | Some v \<Rightarrow> v)"

text \<open>\<^verbatim>\<open>{...a}\<close> and an object literal define own properties: an existing property keeps its
  place and takes the new value, a new one is added last.\<close>

definition define_prop :: "obj \<Rightarrow> string \<Rightarrow> jsval \<Rightarrow> obj" where
  "define_prop ob k v = AList.update k v ob"

text \<open>\<^verbatim>\<open>attributes[key] = value\<close> is an assignment: for the key \<^verbatim>\<open>__proto__\<close> it reaches
  the setter inherited from \<^verbatim>\<open>Object.prototype\<close>, which ignores a value that is neither an
  object nor \<^verbatim>\<open>null\<close>; for every other key it defines the own property.\<close>

definition set_prop :: "obj \<Rightarrow> string \<Rightarrow> jsval \<Rightarrow> obj" where
  "set_prop ob k v = (if k = ''__proto__'' then ob else define_prop ob k v)"

text \<open>A property name is an array index when it is the decimal numeral, without leading
  zeros, of a number below \<open>2^32 - 1\<close>.\<close>

definition index_value :: "string \<Rightarrow> nat" where
  "index_value k = foldl (\<lambda>n c. 10 * n + (code c - 48)) 0 k"

definition is_array_index :: "string \<Rightarrow> bool" where
  "is_array_index k =
     (k \<noteq> [] \<and> list_all is_digit k \<and> (k = ''0'' \<or> hd k \<noteq> CHR ''0'') \<and>
      length k \<le> 10 \<and> index_value k < 4294967295)"

text \<open>\<^verbatim>\<open>Object.keys\<close>, and the order in which a spread copies: the array indices in
  ascending numeric order, then the other names in the order of creation.\<close>

definition key_order :: "string list \<Rightarrow> string list" where
  "key_order ks =
     sort_key index_value (filter is_array_index ks) @ filter (\<lambda>k. \<not> is_array_index k) ks"

definition own_keys :: "obj \<Rightarrow> string list" where
  "own_keys ob = key_order (map fst ob)"

definition spread :: "obj \<Rightarrow> obj \<Rightarrow> obj" where
  "spread target src = foldl (\<lambda>t k. define_prop t k (get_prop src k)) target (own_keys src)"

subsection \<open>The attribute tokenizer\<close>

text \<open>The array returned by \<^verbatim>\<open>regex.exec\<close>: \<^verbatim>\<open>match[1]\<close> to \<^verbatim>\<open>match[4]\<close>. A group that
  took no part in the match is \<^verbatim>\<open>undefined\<close>.\<close>

record rmatch =
  m1 :: string
  m2 :: jsval
  m3 :: jsval
  m4 :: jsval

text \<open>One attempt of the pattern at the start of a string, with the text that follows the
  match. \<^verbatim>\<open>\w+\<close> takes the longest run of word characters, and no shorter run can be followed
  by \<^verbatim>\<open>=\<close>, which is not a word character. After an opening quote the class \<^verbatim>\<open>[^"]*\<close> runs to
  the next quote of the same kind; when there is none the attempt fails, since the other two
  alternatives cannot start at a quote of this kind. The bare value is the last element of the
  pattern, so it takes the longest run.\<close>

definition match_at :: "string \<Rightarrow> (rmatch \<times> string) option" where
  "match_at s =
     (let k = takeWhile is_word s in
      if k = [] then None
      else case dropWhile is_word s of
        [] \<Rightarrow> None
      | e # v \<Rightarrow>
          if e \<noteq> CHR ''='' then None
          else case v of
            [] \<Rightarrow> None
          | c # t \<Rightarrow>
              if c = dq then
                (case dropWhile (\<lambda>x. x \<noteq> dq) t of
                   [] \<Rightarrow> None
                 | _ # r \<Rightarrow>
                     Some (\<lparr>m1 = k, m2 = Some (takeWhile (\<lambda>x. x \<noteq> dq) t), m3 = None, m4 = None\<rparr>, r))
              else if c = sq then
                (case dropWhile (\<lambda>x. x \<noteq> sq) t of
                   [] \<Rightarrow> None
                 | _ # r \<Rightarrow>
                     Some (\<lparr>m1 = k, m2 = None, m3 = Some (takeWhile (\<lambda>x. x \<noteq> sq) t), m4 = None\<rparr>, r))
              else if is_bare_start c then
                Some (\<lparr>m1 = k, m2 = None, m3 = None, m4 = Some (c # takeWhile is_bare_char t)\<rparr>,
                      dropWhile is_bare_char t)
              else None)"

lemma match_at_shorter:
  assumes "match_at s = Some (m, r)"
  shows "length r < length s"
proof -
  have a: "length (dropWhile P xs) \<le> length xs" for P and xs :: string
    by (rule length_dropWhile_le)
  obtain e v where ev: "dropWhile is_word s = e # v"
    using assms by (auto simp: match_at_def Let_def split: if_splits list.splits)
  have v: "length v < length s"
    using a [of is_word s] ev by simp
  obtain c t where ct: "v = c # t"
    using assms ev by (auto simp: match_at_def Let_def split: if_splits list.splits)
  have "length r \<le> length t"
  proof -
    have "r = dropWhile is_bare_char t \<or> (\<exists>x. dropWhile (\<lambda>x. x \<noteq> dq) t = x # r)
        \<or> (\<exists>x. dropWhile (\<lambda>x. x \<noteq> sq) t = x # r)"
      using assms ev ct by (auto simp: match_at_def Let_def split: if_splits list.splits)
    then show ?thesis
      using a [of is_bare_char t] a [of "\<lambda>x. x \<noteq> dq" t] a [of "\<lambda>x. x \<noteq> sq" t] by auto
  qed
  with v ct show ?thesis by simp
qed

text \<open>The loop \<^verbatim>\<open>while ((match = regex.exec(str)) !== null)\<close>: each call looks for the first
  position, from the end of the previous match on, at which the pattern matches.\<close>

function exec_all :: "string \<Rightarrow> rmatch list" where
  "exec_all [] = []"
| "exec_all (c # cs) =
     (case match_at (c # cs) of
        None \<Rightarrow> exec_all cs
      | Some (m, r) \<Rightarrow> m # exec_all r)"
  by pat_completeness auto
termination
  by (relation "measure length") (auto dest: match_at_shorter)

text \<open>\<^verbatim>\<open>value.replace(/\\x/g, 'y')\<close> for a pattern of a backslash and one character: the
  occurrences are replaced from left to right, and the search goes on after each of them.\<close>

fun replace2 :: "char \<Rightarrow> char \<Rightarrow> char \<Rightarrow> string \<Rightarrow> string" where
  "replace2 a b r (x # y # zs) =
     (if x = a \<and> y = b then r # replace2 a b r zs else x # replace2 a b r (y # zs))"
| "replace2 a b r xs = xs"

definition unescape :: "string \<Rightarrow> string" where
  "unescape v =
     replace2 bs CHR ''t'' (CHR 0x09)
      (replace2 bs CHR ''r'' (CHR 0x0D)
        (replace2 bs CHR ''n'' (CHR 0x0A)
          (replace2 bs bs bs
            (replace2 bs sq sq
              (replace2 bs dq dq v)))))"

text \<open>The body of the loop: the key and the value of one match. The replacements are made
  only when \<^verbatim>\<open>match[2] || match[3]\<close> is truthy, and then \<^verbatim>\<open>value\<close> is that non-empty string. An
  empty quoted value makes both \<^verbatim>\<open>||\<close> fall through to \<^verbatim>\<open>match[4]\<close>, which is \<^verbatim>\<open>undefined\<close>.\<close>

definition match_key :: "rmatch \<Rightarrow> string" where
  "match_key m = map to_lower (m1 m)"

definition match_value :: "rmatch \<Rightarrow> jsval" where
  "match_value m =
     (let value = js_or (js_or (m2 m) (m3 m)) (m4 m) in
      if truthy (js_or (m2 m) (m3 m)) then map_option unescape value else value)"

definition parseAttributes :: "string \<Rightarrow> obj" where
  "parseAttributes str =
     foldl (\<lambda>attributes m. set_prop attributes (match_key m) (match_value m)) [] (exec_all str)"

subsection \<open>Commands and errors\<close>

text \<open>The type \<^verbatim>\<open>'ADD' | 'REMOVE' | 'MOVE' | 'RENAME' | 'SET'\<close> of the field \<^verbatim>\<open>type\<close>.\<close>

datatype kind = ADD | REMOVE | MOVE | RENAME | SET

fun kind_name :: "kind \<Rightarrow> string" where
  "kind_name ADD = ''ADD''"
| "kind_name REMOVE = ''REMOVE''"
| "kind_name MOVE = ''MOVE''"
| "kind_name RENAME = ''RENAME''"
| "kind_name SET = ''SET''"

text \<open>One constructor for each \<^verbatim>\<open>throw new Error(...)\<close> of the module, with the parts of
  its message that vary. The \<^verbatim>\<open>default\<close> branch of the \<^verbatim>\<open>switch\<close> is not modelled: the
  upper-cased keyword is one of the five kinds.\<close>

datatype error =
    InvalidCommandFormat
  | MustStartWithId kind
  | MustHaveId kind
  | MustHaveBoth kind string
  | ShouldOnlyHaveId "string list"
  | MustHaveAttributeToSet

fun join :: "string \<Rightarrow> string list \<Rightarrow> string" where
  "join sep [] = []"
| "join sep [x] = x"
| "join sep (x # y # ys) = x @ sep @ join sep (y # ys)"

fun message :: "error \<Rightarrow> string" where
  "message InvalidCommandFormat =
     ''Invalid command format - must start with ADD, REMOVE, MOVE, RENAME, or SET''"
| "message (MustStartWithId k) =
     kind_name k @ '' command must start with id= (following Lark grammar)''"
| "message (MustHaveId k) = kind_name k @ '' command must have id''"
| "message (MustHaveBoth k a) =
     kind_name k @ '' command must have both id and '' @ a @ '' (following Lark grammar)''"
| "message (ShouldOnlyHaveId extraAttrs) =
     ''REMOVE command should only have id, found: '' @ join '', '' extraAttrs"
| "message MustHaveAttributeToSet =
     ''SET command must have at least one attribute to set (following Lark grammar)''"

text \<open>The parsed command is an object: \<^verbatim>\<open>{ ...result, ...attributes }\<close> with
  \<^verbatim>\<open>result = { type, id: '' }\<close>.\<close>

definition build :: "kind \<Rightarrow> obj \<Rightarrow> obj" where
  "build type attributes =
     spread (spread [] [(''type'', Some (kind_name type)), (''id'', Some [])]) attributes"

definition extraAttrs :: "obj \<Rightarrow> string list" where
  "extraAttrs attributes = filter (\<lambda>k. k \<noteq> ''id'') (own_keys attributes)"

definition parseAddCommand :: "string \<Rightarrow> kind \<Rightarrow> error + obj" where
  "parseAddCommand remainder type =
     (if \<not> startsWith remainder ''id='' then Inl (MustStartWithId ADD)
      else let attributes = parseAttributes remainder in
        if \<not> truthy (get_prop attributes ''id'') then Inl (MustHaveId ADD)
        else Inr (build type attributes))"

definition parseRemoveCommand :: "string \<Rightarrow> kind \<Rightarrow> error + obj" where
  "parseRemoveCommand remainder type =
     (if \<not> startsWith remainder ''id='' then Inl (MustStartWithId REMOVE)
      else let attributes = parseAttributes remainder in
        if \<not> truthy (get_prop attributes ''id'') then Inl (MustHaveId REMOVE)
        else if length (extraAttrs attributes) > 0 then Inl (ShouldOnlyHaveId (extraAttrs attributes))
        else Inr (build type attributes))"

definition parseMoveCommand :: "string \<Rightarrow> kind \<Rightarrow> error + obj" where
  "parseMoveCommand remainder type =
     (if \<not> startsWith remainder ''id='' then Inl (MustStartWithId MOVE)
      else let attributes = parseAttributes remainder in
        if \<not> truthy (get_prop attributes ''id'') \<or> \<not> truthy (get_prop attributes ''parent'')
        then Inl (MustHaveBoth MOVE ''parent'')
        else Inr (build type attributes))"

definition parseRenameCommand :: "string \<Rightarrow> kind \<Rightarrow> error + obj" where
  "parseRenameCommand remainder type =
     (if \<not> startsWith remainder ''id='' then Inl (MustStartWithId RENAME)
      else let attributes = parseAttributes remainder in
        if \<not> truthy (get_prop attributes ''id'') \<or> \<not> truthy (get_prop attributes ''label'')
        then Inl (MustHaveBoth RENAME ''label'')
        else Inr (build type attributes))"

definition parseSetCommand :: "string \<Rightarrow> kind \<Rightarrow> error + obj" where
  "parseSetCommand remainder type =
     (if \<not> startsWith remainder ''id='' then Inl (MustStartWithId SET)
      else let attributes = parseAttributes remainder in
        if \<not> truthy (get_prop attributes ''id'') then Inl (MustHaveId SET)
        else if length (extraAttrs attributes) = 0 then Inl MustHaveAttributeToSet
        else Inr (build type attributes))"

text \<open>\<^verbatim>\<open>cmd.match(/^(ADD|REMOVE|MOVE|RENAME|SET)\s+/i)\<close>: the alternatives are tried in
  their order, each followed by the longest non-empty run of white space. The result is the
  kind of \<^verbatim>\<open>commandMatch[1].toUpperCase()\<close> and \<^verbatim>\<open>cmd.slice(commandMatch[0].length)\<close>.\<close>

fun commandMatch_from :: "kind list \<Rightarrow> string \<Rightarrow> (kind \<times> string) option" where
  "commandMatch_from [] cmd = None"
| "commandMatch_from (k # ks) cmd =
     (let n = length (kind_name k) in
      if map to_upper (take n cmd) = kind_name k \<and> takeWhile is_space (drop n cmd) \<noteq> []
      then Some (k, dropWhile is_space (drop n cmd))
      else commandMatch_from ks cmd)"

definition commandMatch :: "string \<Rightarrow> (kind \<times> string) option" where
  "commandMatch cmd = commandMatch_from [ADD, REMOVE, MOVE, RENAME, SET] cmd"

definition parseLarkTreeCommand :: "string \<Rightarrow> error + obj" where
  "parseLarkTreeCommand commandString =
     (let cmd = trim commandString in
      case commandMatch cmd of
        None \<Rightarrow> Inl InvalidCommandFormat
      | Some (commandType, remainder) \<Rightarrow>
          (case commandType of
             ADD \<Rightarrow> parseAddCommand remainder commandType
           | REMOVE \<Rightarrow> parseRemoveCommand remainder commandType
           | MOVE \<Rightarrow> parseMoveCommand remainder commandType
           | RENAME \<Rightarrow> parseRenameCommand remainder commandType
           | SET \<Rightarrow> parseSetCommand remainder commandType))"

subsection \<open>The strings of the consistency check\<close>

text \<open>The array \<^verbatim>\<open>testCases\<close> of the plain string (lines 209 to 217 of the script).\<close>

definition testCases :: "string list" where
  \<open>testCases =
    [''ADD id=node1'',
     ''ADD id=node1 label="Test"'',
     ''ADD id=node1 parent=root'',
     ''REMOVE id=node1'',
     ''MOVE id=node1 parent=root'',
     ''RENAME id=node1 label="New Name"'',
     ''SET id=node1 value="test"'']\<close>

section \<open>Vocabulary of the properties\<close>

text \<open>The attributes that each per-command function requires to be truthy before it builds
  its result, and the error it throws when one of them is not.\<close>

fun required :: "kind \<Rightarrow> string list" where
  "required ADD = [''id'']"
| "required REMOVE = [''id'']"
| "required MOVE = [''id'', ''parent'']"
| "required RENAME = [''id'', ''label'']"
| "required SET = [''id'']"

fun missing_required :: "kind \<Rightarrow> error" where
  "missing_required ADD = MustHaveId ADD"
| "missing_required REMOVE = MustHaveId REMOVE"
| "missing_required MOVE = MustHaveBoth MOVE ''parent''"
| "missing_required RENAME = MustHaveBoth RENAME ''label''"
| "missing_required SET = MustHaveId SET"

text \<open>The attribute names in the order in which the loop of \<^verbatim>\<open>parseAttributes\<close> meets them,
  and a list of names reduced to the first occurrence of each.\<close>

definition encountered :: "string \<Rightarrow> string list" where
  "encountered str = map match_key (exec_all str)"

definition add_new :: "string list \<Rightarrow> string \<Rightarrow> string list" where
  "add_new ks k = (if k \<in> set ks then ks else ks @ [k])"

definition first_seen :: "string list \<Rightarrow> string list" where
  "first_seen ks = foldl add_new [] ks"

text \<open>The text that a match covers (\<^verbatim>\<open>match[0]\<close>), rebuilt from its groups.\<close>

definition match_text :: "rmatch \<Rightarrow> string" where
  "match_text m =
     m1 m @ ''='' @
       (case m2 m of
          Some b \<Rightarrow> [dq] @ b @ [dq]
        | None \<Rightarrow>
            (case m3 m of
               Some b \<Rightarrow> [sq] @ b @ [sq]
             | None \<Rightarrow> (case m4 m of Some b \<Rightarrow> b | None \<Rightarrow> [])))"

text \<open>A text made of pieces \<open>ts\<close> with other text \<open>gs\<close> before, between and after them.\<close>

fun weave :: "string list \<Rightarrow> string list \<Rightarrow> string" where
  "weave (g # gs) (t # ts) = g @ t @ weave gs ts"
| "weave gs ts = concat gs"

text \<open>The shape of the matches that the pattern can produce.\<close>

definition wf_match :: "rmatch \<Rightarrow> bool" where
  "wf_match m =
     (m1 m \<noteq> [] \<and> list_all is_word (m1 m) \<and>
      (case (m2 m, m3 m, m4 m) of
         (Some b, None, None) \<Rightarrow> dq \<notin> set b
       | (None, Some b, None) \<Rightarrow> sq \<notin> set b
       | (None, None, Some b) \<Rightarrow> b \<noteq> [] \<and> is_bare_start (hd b) \<and> list_all is_bare_char (tl b)
       | _ \<Rightarrow> False))"

section \<open>Properties\<close>

subsection \<open>Escape sequences in quoted values\<close>

text \<open>
  C1. The claim: inside a quoted value the sequences backslash-quote, backslash-apostrophe,
  double backslash, backslash-n, backslash-r and backslash-t are unescaped, and tokenizing
  \<^verbatim>\<open>label="a\"b\nc"\<close> gives \<^verbatim>\<open>label\<close> the five characters a, double quote, b, line feed, c.
  The module does replace backslash-quote by a quote, but its pattern for a double-quoted value
  is \<^verbatim>\<open>"([^"]*)"\<close>, which ends the value at the first double quote, escaped or not. On the
  input of the claim the value of \<^verbatim>\<open>label\<close> is the two characters a and backslash, and the
  rest of the line holds no further match.
\<close>

theorem escaped_double_quote_ends_value:
  \<open>parseAttributes (''label="a'' @ [bs] @ ''"b'' @ [bs] @ ''nc"'') = [(''label'', Some [CHR ''a'', bs])]
   \<and> get_prop (parseAttributes (''label="a'' @ [bs] @ ''"b'' @ [bs] @ ''nc"'')) ''label''
       \<noteq> Some [CHR ''a'', dq, CHR ''b'', CHR 0x0A, CHR ''c'']\<close>
  by code_simp

subsection \<open>The minimal commands and the strings of the suite\<close>

text \<open>
  C2. The claim: each of \<^verbatim>\<open>ADD id=x\<close>, \<^verbatim>\<open>REMOVE id=x\<close>, \<^verbatim>\<open>MOVE id=x parent=y\<close>,
  \<^verbatim>\<open>RENAME id=x label="y"\<close> and \<^verbatim>\<open>SET id=x value=y\<close> parses, and the field \<^verbatim>\<open>id\<close> of the
  result is \<^verbatim>\<open>x\<close>; every string of the built-in suite parses, so that the consistency check
  reports no issue. The parser does its part, which is the theorem: it accepts the five commands
  with \<^verbatim>\<open>id\<close> equal to \<^verbatim>\<open>x\<close>, and each of the seven strings of the suite. The check that should
  report it is the function with the doubled braces, which cannot run.
\<close>

theorem minimal_commands_and_suite_strings_parse:
  \<open>map_sum message (\<lambda>r. get_prop r ''id'') (parseLarkTreeCommand ''ADD id=x'') = Inr (Some ''x'')
   \<and> map_sum message (\<lambda>r. get_prop r ''id'') (parseLarkTreeCommand ''REMOVE id=x'') = Inr (Some ''x'')
   \<and> map_sum message (\<lambda>r. get_prop r ''id'') (parseLarkTreeCommand ''MOVE id=x parent=y'') = Inr (Some ''x'')
   \<and> map_sum message (\<lambda>r. get_prop r ''id'') (parseLarkTreeCommand ''RENAME id=x label="y"'') = Inr (Some ''x'')
   \<and> map_sum message (\<lambda>r. get_prop r ''id'') (parseLarkTreeCommand ''SET id=x value=y'') = Inr (Some ''x'')
   \<and> list_all (\<lambda>testCase. \<not> isl (parseLarkTreeCommand testCase)) testCases\<close>
  by code_simp

subsection \<open>The prefix check\<close>

text \<open>
  C6. For each of the five kinds: when the text after the keyword and its white space does
  not start with \<^verbatim>\<open>id=\<close>, parsing fails with the error "must start with id=" of that kind.
  The test is made on the text itself, before any attribute is read, so that an \<^verbatim>\<open>id\<close>
  attribute later in the line does not help: \<^verbatim>\<open>ADD label=x id=y\<close> fails in this way.
\<close>

theorem prefix_check_first:
  assumes "commandMatch (trim s) = Some (k, remainder)"
    and "\<not> startsWith remainder ''id=''"
  shows "parseLarkTreeCommand s = Inl (MustStartWithId k)"
  using assms
  by (cases k)
     (simp_all add: parseLarkTreeCommand_def parseAddCommand_def parseRemoveCommand_def
        parseMoveCommand_def parseRenameCommand_def parseSetCommand_def)

theorem prefix_check_first_witness:
  "commandMatch (trim ''ADD label=x id=y'') = Some (ADD, ''label=x id=y'')
   \<and> \<not> startsWith ''label=x id=y'' ''id=''
   \<and> get_prop (parseAttributes ''label=x id=y'') ''id'' = Some ''y''
   \<and> parseLarkTreeCommand ''ADD label=x id=y'' = Inl (MustStartWithId ADD)"
proof -
  have a: "commandMatch (trim ''ADD label=x id=y'') = Some (ADD, ''label=x id=y'')"
    by code_simp
  have b: "\<not> startsWith ''label=x id=y'' ''id=''"
    by code_simp
  have c: "get_prop (parseAttributes ''label=x id=y'') ''id'' = Some ''y''"
    by code_simp
  from a b c prefix_check_first [OF a b] show ?thesis by simp
qed

subsection \<open>A keyword with no white space after it\<close>

lemma commandMatch_from_no_space:
  assumes "map to_upper kw = kind_name k" and "takeWhile is_space rest = []"
  shows "commandMatch_from ks (kw @ rest) = None"
proof (induction ks)
  case Nil
  show ?case by simp
next
  case (Cons k' ks)
  let ?n = "length (kind_name k')"
  have "map to_upper (take ?n (kw @ rest)) = kind_name k'
      \<Longrightarrow> takeWhile is_space (drop ?n (kw @ rest)) = []"
    using assms by (cases k; cases k') (auto simp: map_eq_Cons_conv)
  with Cons show ?case by (auto simp: Let_def)
qed

text \<open>
  C10. When the trimmed input is one of the five keywords, in any letter case, followed by
  nothing or by a character that is not white space (\<^verbatim>\<open>ADD\<close>, \<^verbatim>\<open>ADDid=x\<close>), parsing fails
  with the error "Invalid command format", the error of an unknown keyword, and not with the
  error of the prefix check.
\<close>

theorem keyword_needs_white_space:
  assumes "trim s = kw @ rest"
    and "map to_upper kw = kind_name k"
    and "rest = [] \<or> \<not> is_space (hd rest)"
  shows "parseLarkTreeCommand s = Inl InvalidCommandFormat"
proof -
  have "takeWhile is_space rest = []"
    using assms(3) by (cases rest) auto
  then have "commandMatch (trim s) = None"
    unfolding commandMatch_def assms(1) using assms(2) by (rule commandMatch_from_no_space [rotated])
  then show ?thesis
    by (simp add: parseLarkTreeCommand_def)
qed

theorem keyword_needs_white_space_witness:
  "trim ''  addid=x '' = ''add'' @ ''id=x''
   \<and> map to_upper ''add'' = kind_name ADD
   \<and> \<not> is_space (hd ''id=x'')
   \<and> parseLarkTreeCommand ''  addid=x '' = Inl InvalidCommandFormat
   \<and> parseLarkTreeCommand ''ADD'' = Inl InvalidCommandFormat"
proof -
  have a: "trim ''  addid=x '' = ''add'' @ ''id=x''"
    by code_simp
  have b: "map to_upper ''add'' = kind_name ADD"
    by code_simp
  have c: "\<not> is_space (hd ''id=x'')"
    by code_simp
  have d: "trim ''ADD'' = ''ADD'' @ []"
    by code_simp
  have e: "map to_upper ''ADD'' = kind_name ADD"
    by code_simp
  from a b c
    keyword_needs_white_space [OF a b disjI2, OF c]
    keyword_needs_white_space [OF d e disjI1, OF refl]
  show ?thesis by simp
qed

subsection \<open>Objects and their keys\<close>

lemma set_key_order: "set (key_order ks) = set ks"
  by (auto simp: key_order_def)

lemma set_own_keys: "set (own_keys ob) = fst ` set ob"
  by (simp add: own_keys_def set_key_order)

lemma get_prop_define:
  "get_prop (define_prop ob k v) x = (if x = k then v else get_prop ob x)"
  by (simp add: get_prop_def define_prop_def update_conv')

lemma get_prop_fold_define:
  "get_prop (foldl (\<lambda>t k. define_prop t k (f k)) t ks) x
     = (if x \<in> set ks then f x else get_prop t x)"
  by (induction ks arbitrary: t) (auto simp: get_prop_define)

lemma get_prop_spread:
  "get_prop (spread t src) x = (if x \<in> fst ` set src then get_prop src x else get_prop t x)"
  by (simp add: spread_def get_prop_fold_define set_own_keys)

lemma truthy_has_key: "truthy (get_prop ob k) \<Longrightarrow> k \<in> fst ` set ob"
  by (auto simp: get_prop_def split: option.splits dest: map_of_SomeD intro: rev_image_eqI)

lemma get_prop_build_id:
  "truthy (get_prop attributes ''id'') \<Longrightarrow> get_prop (build k attributes) ''id'' = get_prop attributes ''id''"
  by (simp add: build_def get_prop_spread truthy_has_key)

lemma extras_empty_iff:
  "truthy (get_prop ob ''id'') \<Longrightarrow> extraAttrs ob = [] \<longleftrightarrow> set (own_keys ob) = {''id''}"
  using truthy_has_key [of ob "''id''"]
  by (auto simp: extraAttrs_def filter_empty_conv set_own_keys)

lemma map_fst_define: "map fst (define_prop ob k v) = add_new (map fst ob) k"
  unfolding define_prop_def add_new_def
  by (induction ob) auto

lemma map_fst_fold_set:
  "map fst (foldl (\<lambda>a m. set_prop a (match_key m) (match_value m)) acc ms)
    = foldl add_new (map fst acc) (filter (\<lambda>k. k \<noteq> ''__proto__'') (map match_key ms))"
  by (induction ms arbitrary: acc) (auto simp: set_prop_def map_fst_define)

lemma keys_parseAttributes:
  "map fst (parseAttributes str) = first_seen (filter (\<lambda>k. k \<noteq> ''__proto__'') (encountered str))"
  by (simp add: parseAttributes_def first_seen_def encountered_def map_fst_fold_set)

lemma key_order_no_index: "\<not> list_ex is_array_index ks \<Longrightarrow> key_order ks = ks"
  by (simp add: key_order_def list_ex_iff filter_empty_conv)

lemma set_fold_add_new: "set (foldl add_new acc ks) = set acc \<union> set ks"
  by (induction ks arbitrary: acc) (auto simp: add_new_def)

lemma set_first_seen: "set (first_seen ks) = set ks"
  by (simp add: first_seen_def set_fold_add_new)

subsection \<open>The required attributes\<close>

text \<open>
  C3, as the module has it. The claim: when the keyword and the prefix check pass, parsing
  fails with the missing-attribute error exactly when a required attribute of the kind is absent
  from the tokenized mapping. The module tests the required attributes for truthiness
  (\<^verbatim>\<open>!attributes.id || !attributes.parent\<close>), so the error is also thrown for an attribute that
  is in the mapping without a non-empty value: \<^verbatim>\<open>MOVE id=x parent=""\<close> fails with it although
  \<^verbatim>\<open>parent\<close> is a key of the mapping.
\<close>

theorem missing_required_counterexample:
  \<open>parseLarkTreeCommand ''MOVE id=x parent=""'' = Inl (MustHaveBoth MOVE ''parent'')
   \<and> own_keys (parseAttributes ''id=x parent=""'') = [''id'', ''parent'']\<close>
  by code_simp

text \<open>
  C3, amended. When the keyword and the prefix check pass, parsing fails with the
  missing-attribute error of the kind (its message names the required attributes of the kind:
  \<^verbatim>\<open>id\<close>, or \<^verbatim>\<open>id\<close> and \<^verbatim>\<open>parent\<close>, or \<^verbatim>\<open>id\<close> and \<^verbatim>\<open>label\<close>) exactly when some required
  attribute of the kind is absent from the tokenized mapping or has no non-empty value in it.
  \<^verbatim>\<open>MOVE id=x\<close> fails with the error that names \<^verbatim>\<open>parent\<close>.
\<close>

theorem missing_required_iff:
  assumes "commandMatch (trim s) = Some (k, remainder)"
    and "startsWith remainder ''id=''"
  shows "parseLarkTreeCommand s = Inl (missing_required k)
     \<longleftrightarrow> list_ex (\<lambda>a. \<not> truthy (get_prop (parseAttributes remainder) a)) (required k)"
  using assms
  by (cases k)
     (auto simp: parseLarkTreeCommand_def parseAddCommand_def parseRemoveCommand_def
         parseMoveCommand_def parseRenameCommand_def parseSetCommand_def Let_def)

theorem missing_required_iff_witness:
  \<open>commandMatch (trim ''MOVE id=x'') = Some (MOVE, ''id=x'')
   \<and> startsWith ''id=x'' ''id=''
   \<and> list_ex (\<lambda>a. \<not> truthy (get_prop (parseAttributes ''id=x'') a)) (required MOVE)
   \<and> parseLarkTreeCommand ''MOVE id=x'' = Inl (MustHaveBoth MOVE ''parent'')\<close>
proof -
  have a: \<open>commandMatch (trim ''MOVE id=x'') = Some (MOVE, ''id=x'')\<close>
    by code_simp
  have b: \<open>startsWith ''id=x'' ''id=''\<close>
    by code_simp
  have c: \<open>list_ex (\<lambda>a. \<not> truthy (get_prop (parseAttributes ''id=x'') a)) (required MOVE)\<close>
    by code_simp
  from a b c missing_required_iff [OF a b] show ?thesis by simp
qed

subsection \<open>REMOVE takes no attribute but id\<close>

text \<open>
  C4, as the module has it. The claim: a REMOVE whose mapping holds an attribute other than
  \<^verbatim>\<open>id\<close> fails with the error that lists the offending names in the order in which they were
  met. The names are listed in the order of \<^verbatim>\<open>Object.keys\<close>, which puts array indices first:
  \<^verbatim>\<open>REMOVE id=x 2=a 1=b\<close> meets \<^verbatim>\<open>2\<close> before \<^verbatim>\<open>1\<close> and reports \<^verbatim>\<open>1, 2\<close>. And the test for a
  non-empty \<^verbatim>\<open>id\<close> comes first: \<^verbatim>\<open>REMOVE id="" a=b\<close> has the extra attribute \<^verbatim>\<open>a\<close> and fails
  with "must have id".
\<close>

theorem remove_order_counterexample:
  \<open>parseLarkTreeCommand ''REMOVE id=x 2=a 1=b'' = Inl (ShouldOnlyHaveId [''1'', ''2''])
   \<and> filter (\<lambda>k. k \<noteq> ''id'') (encountered ''id=x 2=a 1=b'') = [''2'', ''1'']
   \<and> own_keys (parseAttributes ''id="" a=b'') = [''id'', ''a'']
   \<and> parseLarkTreeCommand ''REMOVE id="" a=b'' = Inl (MustHaveId REMOVE)\<close>
  by code_simp

text \<open>
  C4, amended. A REMOVE that passes the prefix check and has a non-empty \<^verbatim>\<open>id\<close> fails,
  when its mapping holds any attribute other than \<^verbatim>\<open>id\<close>, with the error that lists the other
  names of the mapping in the order of its keys: the names that are array indices in ascending
  numeric order, then the other names in the order of their first occurrence (so in the order
  of their first occurrence when no name is an array index). With \<^verbatim>\<open>id\<close> alone it succeeds.
\<close>

theorem remove_rejects_extras:
  assumes "commandMatch (trim s) = Some (REMOVE, remainder)"
    and "startsWith remainder ''id=''"
    and "truthy (get_prop (parseAttributes remainder) ''id'')"
  shows "parseLarkTreeCommand s =
           (if set (own_keys (parseAttributes remainder)) = {''id''}
            then Inr (build REMOVE (parseAttributes remainder))
            else Inl (ShouldOnlyHaveId (extraAttrs (parseAttributes remainder))))
       \<and> extraAttrs (parseAttributes remainder) =
           filter (\<lambda>k. k \<noteq> ''id'')
             (key_order (first_seen (filter (\<lambda>k. k \<noteq> ''__proto__'') (encountered remainder))))
       \<and> (\<not> list_ex is_array_index (encountered remainder) \<longrightarrow>
           extraAttrs (parseAttributes remainder) =
             filter (\<lambda>k. k \<noteq> ''id'')
               (first_seen (filter (\<lambda>k. k \<noteq> ''__proto__'') (encountered remainder))))"
proof (intro conjI impI)
  show "parseLarkTreeCommand s =
           (if set (own_keys (parseAttributes remainder)) = {''id''}
            then Inr (build REMOVE (parseAttributes remainder))
            else Inl (ShouldOnlyHaveId (extraAttrs (parseAttributes remainder))))"
    using assms extras_empty_iff [of "parseAttributes remainder"]
    by (auto simp: parseLarkTreeCommand_def parseRemoveCommand_def Let_def)
  show a: "extraAttrs (parseAttributes remainder) =
           filter (\<lambda>k. k \<noteq> ''id'')
             (key_order (first_seen (filter (\<lambda>k. k \<noteq> ''__proto__'') (encountered remainder))))"
    by (simp add: extraAttrs_def own_keys_def keys_parseAttributes)
  assume "\<not> list_ex is_array_index (encountered remainder)"
  then have "\<not> list_ex is_array_index
      (first_seen (filter (\<lambda>k. k \<noteq> ''__proto__'') (encountered remainder)))"
    by (auto simp: list_ex_iff set_first_seen)
  then show "extraAttrs (parseAttributes remainder) =
             filter (\<lambda>k. k \<noteq> ''id'')
               (first_seen (filter (\<lambda>k. k \<noteq> ''__proto__'') (encountered remainder)))"
    unfolding a by (simp add: key_order_no_index)
qed

theorem remove_rejects_extras_witness:
  \<open>commandMatch (trim ''REMOVE id=x label="y" 7=z a=b'') = Some (REMOVE, ''id=x label="y" 7=z a=b'')
   \<and> startsWith ''id=x label="y" 7=z a=b'' ''id=''
   \<and> truthy (get_prop (parseAttributes ''id=x label="y" 7=z a=b'') ''id'')
   \<and> parseLarkTreeCommand ''REMOVE id=x label="y" 7=z a=b'' = Inl (ShouldOnlyHaveId [''7'', ''label'', ''a''])\<close>
proof -
  have a: \<open>commandMatch (trim ''REMOVE id=x label="y" 7=z a=b'') = Some (REMOVE, ''id=x label="y" 7=z a=b'')\<close>
    by code_simp
  have b: \<open>startsWith ''id=x label="y" 7=z a=b'' ''id=''\<close>
    by code_simp
  have c: \<open>truthy (get_prop (parseAttributes ''id=x label="y" 7=z a=b'') ''id'')\<close>
    by code_simp
  have d: \<open>own_keys (parseAttributes ''id=x label="y" 7=z a=b'') = [''7'', ''id'', ''label'', ''a'']\<close>
    by code_simp
  have e: \<open>extraAttrs (parseAttributes ''id=x label="y" 7=z a=b'') = [''7'', ''label'', ''a'']\<close>
    by code_simp
  from remove_rejects_extras [OF a b c, THEN conjunct1]
  have \<open>parseLarkTreeCommand ''REMOVE id=x label="y" 7=z a=b'' = Inl (ShouldOnlyHaveId [''7'', ''label'', ''a''])\<close>
    unfolding d e by simp
  with a b c show ?thesis by simp
qed

subsection \<open>SET needs an attribute to set\<close>

text \<open>
  C5, as the module has it. The claim: when the keyword and the prefix check pass, a SET
  fails with the empty-attribute-set error exactly when the mapping holds \<^verbatim>\<open>id\<close> and nothing
  else, and a SET with an attribute besides \<^verbatim>\<open>id\<close> succeeds. The test for a non-empty \<^verbatim>\<open>id\<close>
  comes first: the mapping of \<^verbatim>\<open>SET id=""\<close> holds \<^verbatim>\<open>id\<close> and nothing else, and that of
  \<^verbatim>\<open>SET id="" a=b\<close> holds \<^verbatim>\<open>id\<close> and \<^verbatim>\<open>a\<close>; both fail with "must have id".
\<close>

theorem set_needs_attribute_counterexample:
  \<open>parseLarkTreeCommand ''SET id=""'' = Inl (MustHaveId SET)
   \<and> own_keys (parseAttributes ''id=""'') = [''id'']
   \<and> parseLarkTreeCommand ''SET id="" a=b'' = Inl (MustHaveId SET)
   \<and> own_keys (parseAttributes ''id="" a=b'') = [''id'', ''a'']\<close>
  by code_simp

text \<open>
  C5, amended. When the keyword and the prefix check pass, a SET fails with the
  empty-attribute-set error exactly when the mapping holds \<^verbatim>\<open>id\<close> with a non-empty value and
  no other attribute; a SET whose mapping holds \<^verbatim>\<open>id\<close> with a non-empty value and at least one
  other attribute succeeds.
\<close>

theorem set_needs_attribute:
  assumes "commandMatch (trim s) = Some (SET, remainder)"
    and "startsWith remainder ''id=''"
  shows "(parseLarkTreeCommand s = Inl MustHaveAttributeToSet
           \<longleftrightarrow> truthy (get_prop (parseAttributes remainder) ''id'')
               \<and> set (own_keys (parseAttributes remainder)) = {''id''})
       \<and> (truthy (get_prop (parseAttributes remainder) ''id'')
            \<and> set (own_keys (parseAttributes remainder)) \<noteq> {''id''}
          \<longrightarrow> parseLarkTreeCommand s = Inr (build SET (parseAttributes remainder)))"
  using assms extras_empty_iff [of "parseAttributes remainder"]
  by (auto simp: parseLarkTreeCommand_def parseSetCommand_def Let_def)

theorem set_needs_attribute_witness:
  \<open>commandMatch (trim ''SET id=x'') = Some (SET, ''id=x'')
   \<and> startsWith ''id=x'' ''id=''
   \<and> parseLarkTreeCommand ''SET id=x'' = Inl MustHaveAttributeToSet
   \<and> commandMatch (trim ''SET id=x value=y'') = Some (SET, ''id=x value=y'')
   \<and> startsWith ''id=x value=y'' ''id=''
   \<and> parseLarkTreeCommand ''SET id=x value=y'' = Inr (build SET (parseAttributes ''id=x value=y''))\<close>
proof -
  have a: \<open>commandMatch (trim ''SET id=x'') = Some (SET, ''id=x'')\<close>
    by code_simp
  have b: \<open>startsWith ''id=x'' ''id=''\<close>
    by code_simp
  have c: \<open>truthy (get_prop (parseAttributes ''id=x'') ''id'')\<close>
    by code_simp
  have d: \<open>own_keys (parseAttributes ''id=x'') = [''id'']\<close>
    by code_simp
  have a': \<open>commandMatch (trim ''SET id=x value=y'') = Some (SET, ''id=x value=y'')\<close>
    by code_simp
  have b': \<open>startsWith ''id=x value=y'' ''id=''\<close>
    by code_simp
  have c': \<open>truthy (get_prop (parseAttributes ''id=x value=y'') ''id'')\<close>
    by code_simp
  have d': \<open>own_keys (parseAttributes ''id=x value=y'') = [''id'', ''value'']\<close>
    by code_simp
  have \<open>parseLarkTreeCommand ''SET id=x'' = Inl MustHaveAttributeToSet\<close>
    using set_needs_attribute [OF a b, THEN conjunct1] c d by simp
  moreover have \<open>parseLarkTreeCommand ''SET id=x value=y'' = Inr (build SET (parseAttributes ''id=x value=y''))\<close>
    using set_needs_attribute [OF a' b', THEN conjunct2] c' d' by simp
  ultimately show ?thesis using a b a' b' by simp
qed

subsection \<open>The id of a parsed command\<close>

text \<open>
  C7. Whenever parsing succeeds, the field \<^verbatim>\<open>id\<close> of the resulting command is present and
  is a non-empty string.
\<close>

theorem parsed_id_nonempty:
  assumes "parseLarkTreeCommand s = Inr r"
  shows "\<exists>v. get_prop r ''id'' = Some v \<and> v \<noteq> []"
proof -
  obtain k remainder where "commandMatch (trim s) = Some (k, remainder)"
    using assms by (auto simp: parseLarkTreeCommand_def split: option.splits)
  then have "r = build k (parseAttributes remainder) \<and> truthy (get_prop (parseAttributes remainder) ''id'')"
    using assms
    by (cases k)
       (auto simp: parseLarkTreeCommand_def parseAddCommand_def parseRemoveCommand_def
         parseMoveCommand_def parseRenameCommand_def parseSetCommand_def Let_def
         split: if_splits)
  then have "truthy (get_prop r ''id'')"
    by (simp add: get_prop_build_id)
  then show ?thesis
    by (cases "get_prop r ''id''") auto
qed

theorem parsed_id_nonempty_witness:
  \<open>parseLarkTreeCommand ''add id=n1 id=n2 type=leaf'' = Inr [(''type'', Some ''leaf''), (''id'', Some ''n2'')]
   \<and> (\<exists>v. get_prop [(''type'', Some ''leaf''), (''id'', Some ''n2'')] ''id'' = Some v \<and> v \<noteq> [])\<close>
proof -
  have a: \<open>parseLarkTreeCommand ''add id=n1 id=n2 type=leaf'' = Inr [(''type'', Some ''leaf''), (''id'', Some ''n2'')]\<close>
    by code_simp
  show ?thesis
    using a parsed_id_nonempty [OF a] by (rule conjI)
qed

subsection \<open>The text around the matches\<close>

lemma not_word_chars:
  "\<not> is_word CHR ''=''" "\<not> is_word dq" "\<not> is_word sq" "\<not> is_word CHR '' ''"
  by (simp_all add: is_word_def is_upper_def is_lower_def is_digit_def code_def dq_def sq_def)

lemma not_bare_space: "\<not> is_bare_char CHR '' ''"
  by (simp add: is_bare_char_def is_upper_def is_lower_def is_digit_def code_def)

lemma bare_start_not_quote: "is_bare_start c \<Longrightarrow> c \<noteq> dq \<and> c \<noteq> sq"
  by (auto simp: is_bare_start_def is_upper_def is_lower_def code_def dq_def sq_def)

lemma dq_not_sq: "sq \<noteq> dq"
  by (simp add: dq_def sq_def)

lemma takeWhile_stop:
  "list_all P xs \<Longrightarrow> r = [] \<or> \<not> P (hd r) \<Longrightarrow> takeWhile P (xs @ r) = xs"
  by (cases r) (auto simp: list_all_iff takeWhile_append2)

lemma dropWhile_stop:
  "list_all P xs \<Longrightarrow> r = [] \<or> \<not> P (hd r) \<Longrightarrow> dropWhile P (xs @ r) = r"
  by (cases r) (auto simp: list_all_iff dropWhile_append2)

lemma match_at_wf:
  assumes "match_at s = Some (m, r)"
  shows "wf_match m"
proof -
  have k: "list_all is_word (takeWhile is_word s)"
    by (auto simp: list_all_iff dest: set_takeWhileD)
  have q: "c \<notin> set (takeWhile (\<lambda>x. x \<noteq> c) t)" for c :: char and t
    by (auto dest: set_takeWhileD)
  have b: "list_all is_bare_char (takeWhile is_bare_char t)" for t
    by (auto simp: list_all_iff dest: set_takeWhileD)
  show ?thesis
    using assms k q b
    by (auto simp: match_at_def wf_match_def Let_def split: if_splits list.splits)
qed

lemma dropWhile_quote:
  assumes "dropWhile (\<lambda>x. x \<noteq> c) t = x # r"
  shows "x = c \<and> t = takeWhile (\<lambda>x. x \<noteq> c) t @ c # r"
proof -
  have "\<not> (hd (dropWhile (\<lambda>x. x \<noteq> c) t) \<noteq> c)"
    using assms hd_dropWhile [of "\<lambda>x. x \<noteq> c" t] by auto
  then have "x = c"
    using assms by simp
  moreover have "t = takeWhile (\<lambda>x. x \<noteq> c) t @ dropWhile (\<lambda>x. x \<noteq> c) t"
    by simp
  ultimately show ?thesis
    using assms by simp
qed

lemma match_at_text:
  assumes "match_at s = Some (m, r)"
  shows "s = match_text m @ r"
proof -
  have a: "xs = takeWhile P xs @ dropWhile P xs" for P and xs :: string
    by simp
  obtain v where v: "dropWhile is_word s = CHR ''='' # v"
    using assms by (auto simp: match_at_def Let_def split: if_splits list.splits)
  have s: "s = takeWhile is_word s @ CHR ''='' # v"
    using a [of s is_word] v by simp
  obtain c t where ct: "v = c # t"
    using assms v by (auto simp: match_at_def Let_def split: if_splits list.splits)
  have "v = drop (length (m1 m) + 1) (match_text m @ r) \<and> m1 m = takeWhile is_word s"
    using assms v ct a [of t is_bare_char]
    by (auto simp: match_at_def match_text_def Let_def split: if_splits list.splits
          dest: dropWhile_quote)
  then show ?thesis
    using s by (simp add: match_text_def)
qed

lemma match_at_of_text:
  assumes "wf_match m" and "r = [] \<or> \<not> is_bare_char (hd r)"
  shows "match_at (match_text m @ r) = Some (m, r)"
proof -
  have k: "m1 m \<noteq> []" "list_all is_word (m1 m)"
    using assms(1) by (simp_all add: wf_match_def)
  have tw: "takeWhile is_word (m1 m @ CHR ''='' # x) = m1 m" for x
    using k(2) by (simp add: takeWhile_stop not_word_chars)
  have dw: "dropWhile is_word (m1 m @ CHR ''='' # x) = CHR ''='' # x" for x
    using k(2) by (simp add: dropWhile_stop not_word_chars)
  have tq: "c \<notin> set b \<Longrightarrow> takeWhile (\<lambda>x. x \<noteq> c) (b @ c # r) = b" for c :: char and b
    by (induction b) auto
  have dq': "c \<notin> set b \<Longrightarrow> dropWhile (\<lambda>x. x \<noteq> c) (b @ c # r) = c # r" for c :: char and b
    by (induction b) auto
  consider (d) b where "m2 m = Some b" "m3 m = None" "m4 m = None" "dq \<notin> set b"
    | (s) b where "m2 m = None" "m3 m = Some b" "m4 m = None" "sq \<notin> set b"
    | (b) c t where "m2 m = None" "m3 m = None" "m4 m = Some (c # t)" "is_bare_start c" "list_all is_bare_char t"
    using assms(1)
    by (cases "m4 m"; cases "m3 m"; cases "m2 m"; cases "the (m4 m)") (auto simp: wf_match_def)
  then show ?thesis
  proof cases
    case d
    then show ?thesis
      using k(1) by (simp add: match_at_def match_text_def tw dw tq dq' Let_def)
  next
    case s
    then show ?thesis
      using k(1) dq_not_sq by (simp add: match_at_def match_text_def tw dw tq dq' Let_def)
  next
    case b
    then show ?thesis
      using k(1) bare_start_not_quote [of c] assms(2)
      by (simp add: match_at_def match_text_def tw dw takeWhile_stop dropWhile_stop Let_def)
  qed
qed

lemma match_text_nonempty: "match_text m \<noteq> []"
  by (simp add: match_text_def)

lemma exec_all_text:
  assumes "wf_match m" and "r = [] \<or> \<not> is_bare_char (hd r)"
  shows "exec_all (match_text m @ r) = m # exec_all r"
proof -
  obtain c cs where "match_text m @ r = c # cs"
    using match_text_nonempty [of m] by (cases "match_text m @ r") auto
  then show ?thesis
    using match_at_of_text [OF assms] by simp
qed

lemma exec_all_space: "exec_all (CHR '' '' # s) = exec_all s"
  by (simp add: match_at_def not_word_chars)

lemma join_Cons: "join sep (x # xs) = (if xs = [] then x else x @ sep @ join sep xs)"
  by (cases xs) simp_all

lemma exec_all_join:
  "list_all wf_match ms \<Longrightarrow> exec_all (join '' '' (map match_text ms)) = ms"
proof (induction ms)
  case Nil
  show ?case by simp
next
  case (Cons m ms)
  show ?case
  proof (cases "ms = []")
    case True
    with Cons.prems exec_all_text [of m "[]"] show ?thesis by simp
  next
    case False
    let ?rest = "join '' '' (map match_text ms)"
    have "exec_all (match_text m @ CHR '' '' # ?rest) = m # exec_all (CHR '' '' # ?rest)"
      using Cons.prems by (intro exec_all_text) (simp_all add: not_bare_space)
    also have "\<dots> = m # ms"
      using Cons by (simp only: exec_all_space) simp
    finally show ?thesis
      using False by (simp add: join_Cons)
  qed
qed

lemma exec_all_wf: "list_all wf_match (exec_all s)"
  by (induction s rule: exec_all.induct) (auto split: option.splits dest: match_at_wf)

lemma exec_all_weave:
  "\<exists>gs. length gs = Suc (length (exec_all s)) \<and> s = weave gs (map match_text (exec_all s))"
proof (induction s rule: exec_all.induct)
  case 1
  have "length [[]] = Suc (length (exec_all [])) \<and> [] = weave [[]] (map match_text (exec_all []))"
    by simp
  then show ?case by blast
next
  case (2 c cs)
  show ?case
  proof (cases "match_at (c # cs)")
    case None
    from 2(1) [OF None]
    obtain gs where gs: "length gs = Suc (length (exec_all cs))"
        "cs = weave gs (map match_text (exec_all cs))"
      by auto
    then obtain g gs' where g: "gs = g # gs'"
      by (cases gs) auto
    have e: "exec_all (c # cs) = exec_all cs"
      using None by simp
    have "c # cs = weave ((c # g) # gs') (map match_text (exec_all cs))"
      using gs(2) unfolding g by (cases "exec_all cs") auto
    moreover have "length ((c # g) # gs') = Suc (length (exec_all cs))"
      using gs(1) g by simp
    ultimately show ?thesis
      unfolding e by blast
  next
    case (Some a)
    obtain m r where a: "a = (m, r)" by (cases a)
    from 2(2) [OF Some a [symmetric]]
    obtain gs where gs: "length gs = Suc (length (exec_all r))"
        "r = weave gs (map match_text (exec_all r))"
      by auto
    have e: "exec_all (c # cs) = m # exec_all r"
      using Some a by simp
    have "c # cs = match_text m @ r"
      using Some a by (simp add: match_at_text)
    then have "c # cs = weave ([] # gs) (map match_text (m # exec_all r))"
      using gs(2) by simp
    moreover have "length ([] # gs) = Suc (length (m # exec_all r))"
      using gs(1) by simp
    ultimately show ?thesis
      unfolding e by blast
  qed
qed

text \<open>
  C8. \<^verbatim>\<open>parseAttributes\<close> is a function of its input alone and has a result on every input:
  \<open>exec_all\<close> is defined by a recursion that ends, each match taking away at least the
  three characters of a name, \<^verbatim>\<open>=\<close> and a value, and nothing in the loop fails. An input is its
  matches with other text before, between and after them, and that other text is ignored: the
  matched texts alone, one space apart, give the same mapping. An input with no match gives the
  empty mapping.
\<close>

theorem tokenizer_ignores_other_text:
  "(\<exists>gs. length gs = Suc (length (exec_all s)) \<and> s = weave gs (map match_text (exec_all s)))
   \<and> parseAttributes (join '' '' (map match_text (exec_all s))) = parseAttributes s
   \<and> (exec_all s = [] \<longrightarrow> parseAttributes s = [])"
  by (simp add: exec_all_weave parseAttributes_def exec_all_join exec_all_wf)

theorem tokenizer_ignores_other_text_witness:
  \<open>exec_all ''12 == "?" = x'' = []
   \<and> parseAttributes ''12 == "?" = x'' = []
   \<and> join '' '' (map match_text (exec_all ''?? a='b', c="d e"f=g !!'')) = ''a='b' c="d e" f=g''
   \<and> parseAttributes ''?? a='b', c="d e"f=g !!'' = parseAttributes ''a='b' c="d e" f=g''\<close>
proof -
  have a: \<open>exec_all ''12 == "?" = x'' = []\<close>
    by code_simp
  have b: \<open>join '' '' (map match_text (exec_all ''?? a='b', c="d e"f=g !!'')) = ''a='b' c="d e" f=g''\<close>
    by code_simp
  note t1 = tokenizer_ignores_other_text [of \<open>''12 == "?" = x''\<close>]
  note t2 = tokenizer_ignores_other_text [of \<open>''?? a='b', c="d e"f=g !!''\<close>]
  have c: \<open>parseAttributes ''12 == "?" = x'' = []\<close>
    using t1 a by blast
  have d: \<open>parseAttributes ''?? a='b', c="d e"f=g !!'' = parseAttributes ''a='b' c="d e" f=g''\<close>
    using t2 unfolding b by simp
  from a b c d show ?thesis by blast
qed

subsection \<open>Values read from double quotes\<close>

lemma replace2_absent: "b \<notin> set xs \<Longrightarrow> replace2 a b r xs = xs"
  by (induction a b r xs rule: replace2.induct) auto

lemma replace2_keeps_out: "x \<notin> set xs \<Longrightarrow> x \<noteq> r \<Longrightarrow> x \<notin> set (replace2 a b r xs)"
  by (induction a b r xs rule: replace2.induct) auto

lemma unescape_no_quote:
  assumes "dq \<notin> set v"
  shows "dq \<notin> set (unescape v)"
proof -
  have r: "dq \<noteq> sq" "dq \<noteq> bs" "dq \<noteq> CHR 0x0A" "dq \<noteq> CHR 0x0D" "dq \<noteq> CHR 0x09"
    by (simp_all add: dq_def sq_def bs_def)
  show ?thesis
    unfolding unescape_def replace2_absent [OF assms]
    using assms r by (intro replace2_keeps_out) simp_all
qed

text \<open>
  C9. The claim: for every mapping that the tokenizer returns, writing each entry as
  \<^verbatim>\<open>name="value"\<close> and tokenizing that text gives the same mapping. A value of the mapping can
  hold a double quote: \<^verbatim>\<open>a='x"y' b=c\<close> gives \<^verbatim>\<open>a\<close> the value \<^verbatim>\<open>x"y\<close>. Between double quotes such a
  value has to be written with its quote escaped, \<^verbatim>\<open>a="x\"y"\<close>, and the module means to read that
  (its first replacement), but its pattern ends the value at the first double quote, escaped or
  not: this is the defect of C1. So a value that the tokenizer reads from double quotes never
  holds a double quote, whatever the text, which is the theorem; \<^verbatim>\<open>a="x\"y" b="c"\<close> gives \<^verbatim>\<open>a\<close>
  the two characters x and backslash, and no text of the form \<^verbatim>\<open>name="value"\<close> gives back
  \<^verbatim>\<open>x"y\<close>.
\<close>

theorem double_quoted_value_holds_no_quote:
  assumes "m \<in> set (exec_all t)"
    and "m2 m \<noteq> None"
  shows "match_value m = None \<or> (\<exists>w. match_value m = Some w \<and> dq \<notin> set w)"
proof -
  have "wf_match m"
    using assms(1) exec_all_wf [of t] by (simp add: list_all_iff)
  then obtain b where b: "m2 m = Some b" "m3 m = None" "m4 m = None" "dq \<notin> set b"
    using assms(2) by (cases "m2 m"; cases "m3 m"; cases "m4 m") (auto simp: wf_match_def)
  show ?thesis
  proof (cases "b = []")
    case True
    with b show ?thesis
      by (simp add: match_value_def js_or_def)
  next
    case False
    with b have "match_value m = Some (unescape b)"
      by (simp add: match_value_def js_or_def)
    with b(4) show ?thesis
      by (simp add: unescape_no_quote)
  qed
qed

theorem double_quoted_value_holds_no_quote_witness:
  \<open>parseAttributes ''a='x"y' b=c'' = [(''a'', Some ''x"y''), (''b'', Some ''c'')]
   \<and> parseAttributes (''a="x'' @ [bs] @ ''"y" b="c"'') = [(''a'', Some (''x'' @ [bs])), (''b'', Some ''c'')]
   \<and> parseAttributes ''a="x"y" b="c"'' = [(''a'', Some ''x''), (''b'', Some ''c'')]
   \<and> \<lparr>m1 = ''a'', m2 = Some (''x'' @ [bs]), m3 = None, m4 = None\<rparr>
       \<in> set (exec_all (''a="x'' @ [bs] @ ''"y" b="c"''))
   \<and> (match_value \<lparr>m1 = ''a'', m2 = Some (''x'' @ [bs]), m3 = None, m4 = None\<rparr> = None
       \<or> (\<exists>w. match_value \<lparr>m1 = ''a'', m2 = Some (''x'' @ [bs]), m3 = None, m4 = None\<rparr> = Some w
              \<and> dq \<notin> set w))\<close>
proof -
  have a: \<open>parseAttributes ''a='x"y' b=c'' = [(''a'', Some ''x"y''), (''b'', Some ''c'')]\<close>
    by code_simp
  have b: \<open>parseAttributes (''a="x'' @ [bs] @ ''"y" b="c"'') = [(''a'', Some (''x'' @ [bs])), (''b'', Some ''c'')]\<close>
    by code_simp
  have c: \<open>parseAttributes ''a="x"y" b="c"'' = [(''a'', Some ''x''), (''b'', Some ''c'')]\<close>
    by code_simp
  have d: \<open>\<lparr>m1 = ''a'', m2 = Some (''x'' @ [bs]), m3 = None, m4 = None\<rparr>
       \<in> set (exec_all (''a="x'' @ [bs] @ ''"y" b="c"''))\<close>
    by code_simp
  have e: \<open>m2 \<lparr>m1 = ''a'', m2 = Some (''x'' @ [bs]), m3 = None, m4 = None\<rparr> \<noteq> None\<close>
    by simp
  show ?thesis
    using a b c d double_quoted_value_holds_no_quote [OF d e] by (intro conjI)
qed

end
